theory Spec2Isabelle
  imports Main "HOL-Library.Monad_Syntax"
begin

section \<open>Go values: strings, slices and run-time panics\<close>

text \<open>
  A Go \<^verbatim>\<open>string\<close> is a sequence of bytes, here a \<^typ>\<open>string\<close> (a list of
  \<^typ>\<open>char\<close>). A slice \<^verbatim>\<open>[]string\<close> is a \<^typ>\<open>string list\<close>; \<^verbatim>\<open>len\<close> is an
  \<^verbatim>\<open>int\<close>. Reading \<^verbatim>\<open>s[i]\<close> outside \<^verbatim>\<open>0 <= i < len(s)\<close> and slicing outside
  \<^verbatim>\<open>0 <= j <= len(s)\<close> panic at run time: every function that reads a slice returns an
  \<^typ>\<open>'a option\<close>, and \<^term>\<open>None\<close> is the panic.
\<close>

definition len :: "'a list \<Rightarrow> int" where
  "len xs = int (length xs)"

definition idx :: "'a list \<Rightarrow> int \<Rightarrow> 'a option" where
  "idx xs i = (if 0 \<le> i \<and> i < len xs then Some (xs ! nat i) else None)"

definition slice_to :: "'a list \<Rightarrow> int \<Rightarrow> 'a list option" where
  "slice_to xs j = (if 0 \<le> j \<and> j \<le> len xs then Some (take (nat j) xs) else None)"

definition slice_from :: "'a list \<Rightarrow> int \<Rightarrow> 'a list option" where
  "slice_from xs i = (if 0 \<le> i \<and> i \<le> len xs then Some (drop (nat i) xs) else None)"

subsection \<open>The functions of package \<^verbatim>\<open>strings\<close> that the source calls\<close>

text \<open>
  These follow the Go standard library. \<^verbatim>\<open>HasPrefix\<close>, \<^verbatim>\<open>Index\<close>, \<^verbatim>\<open>Contains\<close> and
  \<^verbatim>\<open>Count\<close> compare bytes. \<^verbatim>\<open>Index\<close> returns \<^verbatim>\<open>-1\<close> when there is no occurrence,
  here \<^term>\<open>None\<close>. The source passes a non-empty separator or pattern to \<^verbatim>\<open>Count\<close>,
  \<^verbatim>\<open>SplitN\<close>, \<^verbatim>\<open>Split\<close> and \<^verbatim>\<open>Replace\<close> at every call (\<^verbatim>\<open>" "\<close>, \<^verbatim>\<open>"/"\<close>,
  \<^verbatim>\<open>"like Mac OS X"\<close>, \<^verbatim>\<open>"CPU"\<close>, \<^verbatim>\<open>"_"\<close>); the library's special treatment of an
  empty one (splitting into UTF-8 sequences) is outside the model.
\<close>

definition HasPrefix :: "string \<Rightarrow> string \<Rightarrow> bool" where
  "HasPrefix s pre = (length pre \<le> length s \<and> take (length pre) s = pre)"

fun Index :: "string \<Rightarrow> string \<Rightarrow> nat option" where
  "Index [] substr = (if substr = [] then Some 0 else None)"
| "Index (c # s) substr =
     (if HasPrefix (c # s) substr then Some 0 else map_option Suc (Index s substr))"

definition Contains :: "string \<Rightarrow> string \<Rightarrow> bool" where
  "Contains s substr = (Index s substr \<noteq> None)"

lemma Index_bound: "Index s substr = Some i \<Longrightarrow> i + length substr \<le> length s"
proof (induction s arbitrary: i)
  case Nil
  then show ?case by (simp split: if_splits)
next
  case (Cons c s)
  show ?case
  proof (cases "HasPrefix (c # s) substr")
    case True
    with Cons.prems show ?thesis by (simp add: HasPrefix_def)
  next
    case False
    with Cons.prems obtain j where "Index s substr = Some j" and "i = Suc j"
      by auto
    with Cons.IH show ?thesis by fastforce
  qed
qed

function Count :: "string \<Rightarrow> string \<Rightarrow> nat" where
  "Count s substr =
     (if substr = [] then length s + 1
      else (case Index s substr of
              None \<Rightarrow> 0
            | Some i \<Rightarrow> Suc (Count (drop (i + length substr) s) substr)))"
  by pat_completeness auto
termination
proof (relation "measure (\<lambda>(s, substr). length s)")
  show "wf (measure (\<lambda>(s, substr). length s))" by simp
next
  fix s substr :: string and i :: nat
  assume "substr \<noteq> []" and "Index s substr = Some i"
  then have a: "i + length substr \<le> length s" and b: "length substr \<noteq> 0"
    using Index_bound by auto
  have "length s - (i + length substr) < length s"
    using a b by arith
  then show "((drop (i + length substr) s, substr), (s, substr))
      \<in> measure (\<lambda>(s, substr). length s)"
    by simp
qed

text \<open>
  \<^verbatim>\<open>genSplit\<close>: the loop cuts at most \<open>n\<close> times, at the first occurrence of the
  separator each time, and the last element is the remainder.
\<close>

fun genSplit :: "string \<Rightarrow> string \<Rightarrow> nat \<Rightarrow> string list" where
  "genSplit s sep 0 = [s]"
| "genSplit s sep (Suc n) =
     (case Index s sep of
        None \<Rightarrow> [s]
      | Some m \<Rightarrow> take m s # genSplit (drop (m + length sep) s) sep n)"

definition SplitN :: "string \<Rightarrow> string \<Rightarrow> int \<Rightarrow> string list" where
  "SplitN s sep n =
     (if n = 0 then []
      else let n1 = (if n < 0 then Count s sep + 1 else nat n);
               n2 = (if n1 > length s + 1 then length s + 1 else n1)
           in genSplit s sep (n2 - 1))"

definition Split :: "string \<Rightarrow> string \<Rightarrow> string list" where
  "Split s sep = SplitN s sep (- 1)"

fun Join :: "string list \<Rightarrow> string \<Rightarrow> string" where
  "Join [] sep = []"
| "Join [a] sep = a"
| "Join (a # b # rest) sep = a @ sep @ Join (b # rest) sep"

text \<open>\<^verbatim>\<open>Replace\<close>: the first \<open>n\<close> occurrences, all of them when \<open>n < 0\<close>.\<close>

fun replaceN :: "string \<Rightarrow> string \<Rightarrow> string \<Rightarrow> nat \<Rightarrow> string" where
  "replaceN s old new 0 = s"
| "replaceN s old new (Suc n) =
     (case Index s old of
        None \<Rightarrow> s
      | Some j \<Rightarrow> take j s @ new @ replaceN (drop (j + length old) s) old new n)"

definition Replace :: "string \<Rightarrow> string \<Rightarrow> string \<Rightarrow> int \<Rightarrow> string" where
  "Replace s old new n =
     (if old = new \<or> n = 0 then s
      else let m = Count s old
           in if m = 0 then s
              else replaceN s old new (if n < 0 \<or> int m < n then m else nat n))"

text \<open>\<^verbatim>\<open>Trim\<close>: the leading and the trailing characters of the cutset go.\<close>

definition Trim :: "string \<Rightarrow> string \<Rightarrow> string" where
  "Trim s cutset =
     rev (dropWhile (\<lambda>c. c \<in> set cutset) (rev (dropWhile (\<lambda>c. c \<in> set cutset) s)))"

text \<open>
  \<^verbatim>\<open>EqualFold\<close> reports whether two strings, read as UTF-8, are equal under Unicode
  simple case folding. The library compares the strings rune by rune: bytes below
  \<^verbatim>\<open>0x80\<close> are runes of their own, the others are decoded as
  \<^verbatim>\<open>utf8.DecodeRuneInString\<close> does, where every byte that does not start a well-formed
  encoding is the rune \<^verbatim>\<open>U+FFFD\<close> of width 1; two runes match when one is reached
  from the other by \<^verbatim>\<open>unicode.SimpleFold\<close>. A rune is a \<^typ>\<open>nat\<close> here.
\<close>

definition RuneError :: nat where
  "RuneError = 0xFFFD"

definition DecodeRuneInString :: "string \<Rightarrow> nat \<times> nat" where
  "DecodeRuneInString s =
     (case map of_char s of
        [] \<Rightarrow> (RuneError, 0)
      | s0 # rest \<Rightarrow>
          if s0 < 0x80 then (s0, 1)
          else if s0 < 0xC2 \<or> 0xF4 < s0 then (RuneError, 1)
          else
            let sz = (if s0 < 0xE0 then 2 else if s0 < 0xF0 then 3 else 4 :: nat);
                lo = (if s0 = 0xE0 then 0xA0 else if s0 = 0xF0 then 0x90 else 0x80 :: nat);
                hi = (if s0 = 0xED then 0x9F else if s0 = 0xF4 then 0x8F else 0xBF :: nat)
            in if length s < sz then (RuneError, 1)
               else (case rest of
                  [] \<Rightarrow> (RuneError, 1)
                | s1 # rest1 \<Rightarrow>
                    if s1 < lo \<or> hi < s1 then (RuneError, 1)
                    else if sz \<le> 2 then (s0 mod 0x20 * 0x40 + s1 mod 0x40, 2)
                    else (case rest1 of
                       [] \<Rightarrow> (RuneError, 1)
                     | s2 # rest2 \<Rightarrow>
                         if s2 < 0x80 \<or> 0xBF < s2 then (RuneError, 1)
                         else if sz \<le> 3 then
                           (s0 mod 0x10 * 0x1000 + s1 mod 0x40 * 0x40 + s2 mod 0x40, 3)
                         else (case rest2 of
                            [] \<Rightarrow> (RuneError, 1)
                          | s3 # rest3 \<Rightarrow>
                              if s3 < 0x80 \<or> 0xBF < s3 then (RuneError, 1)
                              else (s0 mod 8 * 0x40000 + s1 mod 0x40 * 0x1000 +
                                    s2 mod 0x40 * 0x40 + s3 mod 0x40, 4)))))"

text \<open>The runes of a string, as \<^verbatim>\<open>for _, r := range s\<close> yields them.\<close>

fun runes :: "string \<Rightarrow> nat list" where
  "runes [] = []"
| "runes (c # s) =
     (case DecodeRuneInString (c # s) of (r, w) \<Rightarrow> r # runes (drop (w - 1) s))"

text \<open>
  The orbit of an ASCII rune under \<^verbatim>\<open>unicode.SimpleFold\<close>: a letter and its other case,
  with the Kelvin sign \<^verbatim>\<open>U+212A\<close> for \<^verbatim>\<open>K\<close> and \<^verbatim>\<open>k\<close> and the long s \<^verbatim>\<open>U+017F\<close>
  for \<^verbatim>\<open>S\<close> and \<^verbatim>\<open>s\<close>; any other ASCII rune is alone. No other rune folds to an
  ASCII one.
\<close>

definition asciiOrbit :: "nat \<Rightarrow> nat list" where
  "asciiOrbit a =
     (if a = 0x4B \<or> a = 0x6B then [0x4B, 0x6B, 0x212A]
      else if a = 0x53 \<or> a = 0x73 then [0x53, 0x73, 0x17F]
      else if 0x41 \<le> a \<and> a \<le> 0x5A then [a, a + 0x20]
      else if 0x61 \<le> a \<and> a \<le> 0x7A then [a - 0x20, a]
      else [a])"

text \<open>
  Whether two runes match. The Unicode case tables for the runes from \<^verbatim>\<open>0x80\<close> on are
  not part of the sources: \<open>other\<close> stands for what they say of two different such
  runes. Both calls of the source compare with an ASCII literal, and then the result does
  not depend on \<open>other\<close> (\<open>EqualFoldWith_ascii_pattern\<close> below), so \<open>EqualFold\<close> is
  the instance with no further pair.
\<close>

definition sameFold :: "(nat \<Rightarrow> nat \<Rightarrow> bool) \<Rightarrow> nat \<Rightarrow> nat \<Rightarrow> bool" where
  "sameFold other sr tr =
     (if sr < 0x80 then tr \<in> set (asciiOrbit sr)
      else if tr < 0x80 then sr \<in> set (asciiOrbit tr)
      else sr = tr \<or> other sr tr)"

definition EqualFoldWith :: "(nat \<Rightarrow> nat \<Rightarrow> bool) \<Rightarrow> string \<Rightarrow> string \<Rightarrow> bool" where
  "EqualFoldWith other s t = list_all2 (sameFold other) (runes s) (runes t)"

definition EqualFold :: "string \<Rightarrow> string \<Rightarrow> bool" where
  "EqualFold s t = EqualFoldWith (\<lambda>sr tr. False) s t"

text \<open>ASCII strings and the lower case of an ASCII rune, to state what matching means.\<close>

definition isASCII :: "string \<Rightarrow> bool" where
  "isASCII s = list_all (\<lambda>c. (of_char c :: nat) < 0x80) s"

definition lowerASCII :: "nat \<Rightarrow> nat" where
  "lowerASCII a = (if 0x41 \<le> a \<and> a \<le> 0x5A then a + 0x20 else a)"

section \<open>The normalizer\<close>

text \<open>
  \<^verbatim>\<open>normalizeOS\<close> reads \<^verbatim>\<open>sp[1]\<close> and \<^verbatim>\<open>sp[2]\<close> only after \<^verbatim>\<open>len(sp) != 3\<close> has failed,
  so the three elements are bound by a pattern.
\<close>

definition normalizeOS :: "string \<Rightarrow> string" where
  "normalizeOS name =
     (case SplitN name '' '' 3 of
        [sp0, sp1, sp2] \<Rightarrow>
          if sp1 \<noteq> ''NT'' then name
          else if sp2 = ''5.0'' then ''Windows 2000''
          else if sp2 = ''5.01'' then ''Windows 2000, Service Pack 1 (SP1)''
          else if sp2 = ''5.1'' then ''Windows XP''
          else if sp2 = ''5.2'' then ''Windows XP x64 Edition''
          else if sp2 = ''6.0'' then ''Windows Vista''
          else if sp2 = ''6.1'' then ''Windows 7''
          else if sp2 = ''6.2'' then ''Windows 8''
          else if sp2 = ''6.3'' then ''Windows 8.1''
          else if sp2 = ''10.0'' then ''Windows 10''
          else name
      | _ \<Rightarrow> name)"

section \<open>The data model\<close>

text \<open>
  Modelled from the spec: the declarations of \<^verbatim>\<open>section\<close>, \<^verbatim>\<open>Browser\<close> and
  \<^verbatim>\<open>UserAgent\<close> are in a file of the package that is not among the sources. The fields
  are the ones that the functions below read and write, with the types they are used at.
  A field \<^verbatim>\<open>name\<close> of a section is \<open>sec_name\<close> here, and \<^verbatim>\<open>p.browser.Name\<close> is
  \<open>BrowserName (browser p)\<close>, so that the parameters \<^verbatim>\<open>name\<close>, \<^verbatim>\<open>version\<close> and
  \<^verbatim>\<open>comment\<close> of the functions keep their names.
\<close>

record "section" =
  sec_name :: string
  sec_version :: string
  sec_comment :: "string list"

record Browser =
  Engine :: string
  BrowserName :: string
  BrowserVersion :: string

record UserAgent =
  platform :: string
  os :: string
  localization :: string
  model :: string
  browser :: Browser
  mobile :: bool
  undecided :: bool

record OSInfo =
  FullName :: string
  Name :: string
  Version :: string

section \<open>The platform extractor and the engine heuristics\<close>

text \<open>
  The functions take the \<^verbatim>\<open>*UserAgent\<close> they mutate and return the updated record.
  Every \<^verbatim>\<open>comment[i]\<close> of the source is an \<^term>\<open>idx comment i\<close> here, at the place
  where the source evaluates it.
\<close>

definition getPlatform :: "string list \<Rightarrow> string option" where
  "getPlatform comment =
     (if len comment > 0 then do {
        c0 \<leftarrow> idx comment 0;
        if c0 \<noteq> ''compatible'' then
          (if HasPrefix c0 ''Windows'' then Some ''Windows''
           else if HasPrefix c0 ''Symbian'' then Some ''Symbian''
           else if HasPrefix c0 ''webOS'' then Some ''webOS''
           else if c0 = ''BB10'' then Some ''BlackBerry''
           else Some c0)
        else Some ''''
      }
      else Some '''')"

text \<open>The \<^verbatim>\<open>for\<close> loop of \<^verbatim>\<open>webkit\<close>, which leaves at the first token with \<^verbatim>\<open>wv\<close>.\<close>

fun webkit_loop :: "UserAgent \<Rightarrow> string list \<Rightarrow> UserAgent" where
  "webkit_loop p [] = p"
| "webkit_loop p (c # rest) =
     (if c = ''wv'' \<or> Contains c ''wv'' then
        (if Contains (BrowserName (browser p)) ''Chrome''
         then p\<lparr>mobile := True, browser := (browser p)\<lparr>BrowserName := ''Chrome WebView''\<rparr>\<rparr>
         else p\<lparr>mobile := True, browser := (browser p)\<lparr>BrowserName := ''Android WebView''\<rparr>\<rparr>)
      else webkit_loop p rest)"

definition webkit :: "UserAgent \<Rightarrow> string list \<Rightarrow> UserAgent option" where
  "webkit p comment = do {
     p1 \<leftarrow> (if platform p = '''' then do {
              pl \<leftarrow> getPlatform comment;
              Some (p\<lparr>platform := pl\<rparr>)
            } else Some p);
     p2 \<leftarrow> (if os p1 = '''' \<and> len comment > 1 then do {
              c1 \<leftarrow> idx comment 1;
              Some (p1\<lparr>os := normalizeOS c1\<rparr>)
            } else Some p1);
     Some (webkit_loop p2 comment)
   }"

definition gecko :: "UserAgent \<Rightarrow> string list \<Rightarrow> UserAgent option" where
  "gecko p comment =
     (if len comment > 1 then do {
        c1 \<leftarrow> idx comment 1;
        p1 \<leftarrow> (if c1 = ''U'' \<or> c1 = ''arm_64'' then
                 (if len comment > 2 then do {
                    c2 \<leftarrow> idx comment 2;
                    Some (p\<lparr>os := normalizeOS c2\<rparr>)
                  } else do {
                    c1' \<leftarrow> idx comment 1;
                    Some (p\<lparr>os := normalizeOS c1'\<rparr>)
                  })
               else if Contains (platform p) ''Android'' then do {
                 c1' \<leftarrow> idx comment 1;
                 Some (p\<lparr>mobile := True, platform := normalizeOS c1', os := platform p\<rparr>)
               }
               else do {
                 c0 \<leftarrow> idx comment 0;
                 if c0 = ''Mobile'' \<or> c0 = ''Tablet'' then
                   Some (p\<lparr>mobile := True, os := ''FirefoxOS''\<rparr>)
                 else if os p = '''' then do {
                   c1' \<leftarrow> idx comment 1;
                   Some (p\<lparr>os := normalizeOS c1'\<rparr>)
                 }
                 else Some p
               });
        if len comment > 3 then do {
          c3 \<leftarrow> idx comment 3;
          if \<not> HasPrefix c3 ''rv:'' then Some (p1\<lparr>localization := c3\<rparr>) else Some p1
        }
        else Some p1
      }
      else Some p)"

text \<open>The \<^verbatim>\<open>for\<close> loop of \<^verbatim>\<open>trident\<close>, which returns at the first \<^verbatim>\<open>IEMobile\<close> token.\<close>

fun trident_loop :: "UserAgent \<Rightarrow> string list \<Rightarrow> UserAgent" where
  "trident_loop p [] = p"
| "trident_loop p (v # rest) =
     (if HasPrefix v ''IEMobile'' then p\<lparr>mobile := True\<rparr> else trident_loop p rest)"

definition trident :: "UserAgent \<Rightarrow> string list \<Rightarrow> UserAgent option" where
  "trident p comment = do {
     p1 \<leftarrow> Some (p\<lparr>platform := ''Windows''\<rparr>);
     p2 \<leftarrow> (if os p1 = '''' then
              (if len comment > 2 then do {
                 c2 \<leftarrow> idx comment 2;
                 Some (p1\<lparr>os := normalizeOS c2\<rparr>)
               }
               else Some (p1\<lparr>os := ''Windows NT 4.0''\<rparr>))
            else Some p1);
     Some (trident_loop p2 comment)
   }"

definition opera :: "UserAgent \<Rightarrow> string list \<Rightarrow> UserAgent option" where
  "opera p comment = do {
     slen \<leftarrow> Some (len comment);
     c0 \<leftarrow> idx comment 0;
     if HasPrefix c0 ''Windows'' then do {
       p1 \<leftarrow> Some (p\<lparr>platform := ''Windows'', os := normalizeOS c0\<rparr>);
       if slen > 2 then do {
         mra \<leftarrow> (if slen > 3 then do {
                   c2 \<leftarrow> idx comment 2;
                   Some (HasPrefix c2 ''MRA'')
                 } else Some False);
         if mra then do {
           c3 \<leftarrow> idx comment 3;
           Some (p1\<lparr>localization := c3\<rparr>)
         } else do {
           c2 \<leftarrow> idx comment 2;
           Some (p1\<lparr>localization := c2\<rparr>)
         }
       }
       else Some p1
     }
     else do {
       p1 \<leftarrow> Some (if HasPrefix c0 ''Android'' then p\<lparr>mobile := True\<rparr> else p);
       p2 \<leftarrow> Some (p1\<lparr>platform := c0\<rparr>);
       if slen > 1 then do {
         c1 \<leftarrow> idx comment 1;
         p3 \<leftarrow> Some (p2\<lparr>os := c1\<rparr>);
         if slen > 3 then do {
           c3 \<leftarrow> idx comment 3;
           Some (p3\<lparr>localization := c3\<rparr>)
         }
         else Some p3
       }
       else Some (p2\<lparr>os := c0\<rparr>)
     }
   }"

definition dalvik :: "UserAgent \<Rightarrow> string list \<Rightarrow> UserAgent option" where
  "dalvik p comment = do {
     slen \<leftarrow> Some (len comment);
     c0 \<leftarrow> idx comment 0;
     if HasPrefix c0 ''Linux'' then do {
       p1 \<leftarrow> Some (p\<lparr>platform := c0\<rparr>);
       p2 \<leftarrow> (if slen > 2 then do {
                c2 \<leftarrow> idx comment 2;
                Some (p1\<lparr>os := c2\<rparr>)
              } else Some p1);
       Some (p2\<lparr>mobile := True\<rparr>)
     }
     else Some p
   }"

section \<open>The dispatcher\<close>

text \<open>
  The loop of \<^verbatim>\<open>detectOS\<close> over all the sections, which leaves at the first section
  named \<^verbatim>\<open>Chrome\<close> or \<^verbatim>\<open>Version\<close> (compared with \<^verbatim>\<open>EqualFold\<close>).
\<close>

fun detectOS_loop :: "UserAgent \<Rightarrow> section list \<Rightarrow> UserAgent" where
  "detectOS_loop p [] = p"
| "detectOS_loop p (sec # rest) =
     (if EqualFold (sec_name sec) ''Chrome'' then
        p\<lparr>browser := (browser p)\<lparr>BrowserName := ''Chrome'', BrowserVersion := sec_version sec\<rparr>\<rparr>
      else if EqualFold (sec_name sec) ''Version'' then
        p\<lparr>browser := (browser p)\<lparr>BrowserName := ''Android WebView'',
                                 BrowserVersion := sec_version sec\<rparr>\<rparr>
      else detectOS_loop p rest)"

definition detectOS :: "UserAgent \<Rightarrow> section list \<Rightarrow> UserAgent option" where
  "detectOS p sections =
     (if len sections = 0 then Some p
      else do {
        s \<leftarrow> idx sections 0;
        if sec_name s = ''Mozilla'' then do {
          pl \<leftarrow> getPlatform (sec_comment s);
          p1 \<leftarrow> Some (p\<lparr>platform := pl\<rparr>);
          p2 \<leftarrow> (if platform p1 = ''Windows'' \<and> len (sec_comment s) > 0 then do {
                   c0 \<leftarrow> idx (sec_comment s) 0;
                   Some (p1\<lparr>os := normalizeOS c0\<rparr>)
                 } else Some p1);
          if Engine (browser p2) = '''' then Some (p2\<lparr>undecided := True\<rparr>)
          else if Engine (browser p2) = ''Gecko'' then gecko p2 (sec_comment s)
          else if Engine (browser p2) = ''AppleWebKit'' then do {
            p3 \<leftarrow> webkit p2 (sec_comment s);
            Some (detectOS_loop p3 sections)
          }
          else if Engine (browser p2) = ''Trident'' then trident p2 (sec_comment s)
          else Some p2
        }
        else if sec_name s = ''Opera'' then
          (if len (sec_comment s) > 0 then opera p (sec_comment s) else Some p)
        else if sec_name s = ''Dalvik'' then
          (if len (sec_comment s) > 0 then dalvik p (sec_comment s) else Some p)
        else if sec_name s = ''okhttp'' then
          Some (p\<lparr>mobile := True,
                  browser := (browser p)\<lparr>BrowserName := ''OkHttp'',
                                          BrowserVersion := sec_version s\<rparr>\<rparr>)
        else Some (p\<lparr>undecided := True\<rparr>)
      })"

section \<open>The OS-info splitter\<close>

definition osName :: "string list \<Rightarrow> (string \<times> string) option" where
  "osName osSplit =
     (if len osSplit = 1 then do {
        name \<leftarrow> idx osSplit 0;
        Some (name, '''')
      }
      else do {
        nameSplit \<leftarrow> slice_to osSplit (len osSplit - 1);
        version \<leftarrow> idx osSplit (len osSplit - 1);
        intel \<leftarrow> (if len nameSplit \<ge> 2 then do {
                    n0 \<leftarrow> idx nameSplit 0;
                    if n0 = ''Intel'' then do {
                      n1 \<leftarrow> idx nameSplit 1;
                      Some (n1 = ''Mac'')
                    } else Some False
                  } else Some False);
        nameSplit' \<leftarrow> (if intel then slice_from nameSplit 1 else Some nameSplit);
        name \<leftarrow> Some (Join nameSplit' '' '');
        if Contains version ''x86'' \<or> Contains version ''i686'' then Some (name, '''')
        else if version = ''X'' \<and> name = ''Mac OS'' then Some (name @ '' '' @ version, '''')
        else Some (name, version)
      })"

text \<open>
  The method \<^verbatim>\<open>OSInfo\<close> of \<^verbatim>\<open>*UserAgent\<close>; the local variable \<^verbatim>\<open>os\<close> of the source is
  \<open>os1\<close>, \<open>os2\<close>, \<open>os3\<close> after each of its three assignments.
\<close>

definition OSInfo :: "UserAgent \<Rightarrow> OSInfo option" where
  "OSInfo p = do {
     os1 \<leftarrow> Some (Replace (os p) ''like Mac OS X'' '''' 1);
     os2 \<leftarrow> Some (Replace os1 ''CPU'' '''' 1);
     os3 \<leftarrow> Some (Trim os2 '' '');
     osSplit \<leftarrow> Some (Split os3 '' '');
     osSplit' \<leftarrow> (if os3 = ''Windows XP x64 Edition''
                  then slice_to osSplit (len osSplit - 2) else Some osSplit);
     (name, version) \<leftarrow> osName osSplit';
     (name', version') \<leftarrow> (if Contains name ''/'' then do {
                             s \<leftarrow> Some (Split name ''/'');
                             s0 \<leftarrow> idx s 0;
                             s1 \<leftarrow> idx s 1;
                             Some (s0, s1)
                           } else Some (name, version));
     Some \<lparr>FullName = os p, Name = name', Version = Replace version' ''_'' ''.'' (- 1)\<rparr>
   }"

section \<open>Values that the statements refer to\<close>

text \<open>
  The table of Windows NT versions as a list of pairs, version token first, to state
  what \<^verbatim>\<open>normalizeOS\<close> computes against.
\<close>

definition nt_versions :: "(string \<times> string) list" where
  "nt_versions =
     [(''5.0'', ''Windows 2000''),
      (''5.01'', ''Windows 2000, Service Pack 1 (SP1)''),
      (''5.1'', ''Windows XP''),
      (''5.2'', ''Windows XP x64 Edition''),
      (''6.0'', ''Windows Vista''),
      (''6.1'', ''Windows 7''),
      (''6.2'', ''Windows 8''),
      (''6.3'', ''Windows 8.1''),
      (''10.0'', ''Windows 10'')]"

text \<open>
  The zero value \<^verbatim>\<open>UserAgent{}\<close> of Go, the record that a caller starts from; the
  examples below run the functions on it.
\<close>

definition zeroUserAgent :: UserAgent where
  "zeroUserAgent =
     \<lparr>platform = '''', os = '''', localization = '''', model = '''',
      browser = \<lparr>Engine = '''', BrowserName = '''', BrowserVersion = ''''\<rparr>,
      mobile = False, undecided = False\<rparr>"

section \<open>No read past the end of a comment list\<close>

lemma getPlatform_total: "\<exists>pl. getPlatform comment = Some pl"
  by (simp add: getPlatform_def idx_def)

lemma webkit_total: "\<exists>p'. webkit p comment = Some p'"
proof -
  obtain pl where "getPlatform comment = Some pl"
    using getPlatform_total by blast
  then show ?thesis
    by (simp add: webkit_def idx_def)
qed

lemma gecko_total: "\<exists>p'. gecko p comment = Some p'"
  by (simp add: gecko_def idx_def)

lemma trident_total: "\<exists>p'. trident p comment = Some p'"
  by (simp add: trident_def idx_def)

text \<open>
  \<^verbatim>\<open>opera\<close> and \<^verbatim>\<open>dalvik\<close> read \<^verbatim>\<open>comment[0]\<close> first: the check
  \<^verbatim>\<open>len(s.comment) > 0\<close> is in \<^verbatim>\<open>detectOS\<close>, their only caller, and on an empty
  list they would panic.
\<close>

lemma opera_total: "len comment > 0 \<Longrightarrow> \<exists>p'. opera p comment = Some p'"
  by (simp add: opera_def idx_def)

lemma dalvik_total: "len comment > 0 \<Longrightarrow> \<exists>p'. dalvik p comment = Some p'"
  by (simp add: dalvik_def idx_def)

lemma opera_empty: "opera p [] = None"
  by (simp add: opera_def idx_def len_def)

lemma dalvik_empty: "dalvik p [] = None"
  by (simp add: dalvik_def idx_def len_def)

lemma detectOS_total: "\<exists>p'. detectOS p sections = Some p'"
proof (cases "len sections = 0")
  case True
  then show ?thesis by (simp add: detectOS_def)
next
  case False
  then have s: "idx sections 0 = Some (sections ! 0)"
    by (simp add: idx_def len_def)
  obtain pl where pl: "getPlatform (sec_comment (sections ! 0)) = Some pl"
    using getPlatform_total by blast
  show ?thesis
    using False s pl gecko_total webkit_total trident_total opera_total dalvik_total
    by (simp add: detectOS_def idx_def bind_eq_Some_conv)
qed

text \<open>
  C1: for every section list, with comment lists of any length, \<^verbatim>\<open>detectOS\<close> and the
  heuristics it dispatches to check the length before each read of a comment list, so no
  call reads past the end: \<^verbatim>\<open>detectOS\<close> never panics, nor do \<^verbatim>\<open>getPlatform\<close>,
  \<^verbatim>\<open>webkit\<close>, \<^verbatim>\<open>gecko\<close> and \<^verbatim>\<open>trident\<close> on any comment list, nor \<^verbatim>\<open>opera\<close> and
  \<^verbatim>\<open>dalvik\<close> on the non-empty lists that \<^verbatim>\<open>detectOS\<close> calls them with.
\<close>

theorem detectOS_no_read_past_end:
  "detectOS p sections \<noteq> None \<and>
   getPlatform comment \<noteq> None \<and>
   webkit p comment \<noteq> None \<and>
   gecko p comment \<noteq> None \<and>
   trident p comment \<noteq> None \<and>
   (len comment > 0 \<longrightarrow> opera p comment \<noteq> None \<and> dalvik p comment \<noteq> None)"
proof -
  have "detectOS p sections \<noteq> None"
    using detectOS_total [of p sections] by auto
  moreover have "getPlatform comment \<noteq> None"
    using getPlatform_total [of comment] by auto
  moreover have "webkit p comment \<noteq> None"
    using webkit_total [of p comment] by auto
  moreover have "gecko p comment \<noteq> None"
    using gecko_total [of p comment] by auto
  moreover have "trident p comment \<noteq> None"
    using trident_total [of p comment] by auto
  moreover have "len comment > 0 \<longrightarrow> opera p comment \<noteq> None"
    using opera_total [of comment p] by auto
  moreover have "len comment > 0 \<longrightarrow> dalvik p comment \<noteq> None"
    using dalvik_total [of comment p] by auto
  ultimately show ?thesis by blast
qed

theorem detectOS_no_read_past_end_witness:
  "len [''Linux'', ''U'', ''Android 4.0.3''] > 0 \<and>
   detectOS zeroUserAgent
     [\<lparr>sec_name = ''Dalvik'', sec_version = ''1.6.0'',
       sec_comment = [''Linux'', ''U'', ''Android 4.0.3'']\<rparr>] \<noteq> None \<and>
   opera zeroUserAgent [''Linux'', ''U'', ''Android 4.0.3''] \<noteq> None \<and>
   dalvik zeroUserAgent [''Linux'', ''U'', ''Android 4.0.3''] \<noteq> None"
  using detectOS_no_read_past_end
    [of zeroUserAgent
        "[\<lparr>sec_name = ''Dalvik'', sec_version = ''1.6.0'',
           sec_comment = [''Linux'', ''U'', ''Android 4.0.3'']\<rparr>]"
        "[''Linux'', ''U'', ''Android 4.0.3'']"]
  by (simp add: len_def)

section \<open>What \<^verbatim>\<open>SplitN\<close> with a one-character separator returns\<close>

lemma HasPrefix_single: "HasPrefix (a # s) [c] = (a = c)"
  by (auto simp: HasPrefix_def)

lemma Index_single_append: "c \<notin> set x \<Longrightarrow> Index (x @ c # r) [c] = Some (length x)"
  by (induction x) (auto simp: HasPrefix_single)

lemma Index_single_split:
  "Index s [c] = Some m \<Longrightarrow> s = take m s @ c # drop (Suc m) s \<and> c \<notin> set (take m s)"
proof (induction s arbitrary: m)
  case Nil
  then show ?case by simp
next
  case (Cons a s)
  show ?case
  proof (cases "a = c")
    case True
    with Cons.prems show ?thesis by (simp add: HasPrefix_single)
  next
    case False
    with Cons.prems obtain k where k: "Index s [c] = Some k" "m = Suc k"
      by (auto simp: HasPrefix_single)
    with Cons.IH [OF k(1)] False show ?thesis by auto
  qed
qed

text \<open>
  Once the string is used up, more cuts change nothing: the bound \<^verbatim>\<open>len(s)+1\<close> that
  \<^verbatim>\<open>genSplit\<close> puts on \<open>n\<close> only saves memory.
\<close>

lemma genSplit_fuel:
  "sep \<noteq> [] \<Longrightarrow> length s \<le> a \<Longrightarrow> length s \<le> b \<Longrightarrow> genSplit s sep a = genSplit s sep b"
proof (induction a arbitrary: s b)
  case 0
  then show ?case by (cases b) auto
next
  case (Suc a)
  show ?case
  proof (cases b)
    case 0
    with Suc.prems show ?thesis by auto
  next
    case b: (Suc b')
    show ?thesis
    proof (cases "Index s sep")
      case None
      then show ?thesis by (simp add: b)
    next
      case (Some m)
      have l: "m + length sep \<le> length s"
        by (rule Index_bound [OF Some])
      have n: "1 \<le> length sep"
        using Suc.prems(1) by (cases sep) auto
      have d: "length (drop (m + length sep) s) = length s - (m + length sep)"
        by simp
      have "length (drop (m + length sep) s) \<le> a" "length (drop (m + length sep) s) \<le> b'"
        using l n Suc.prems(2,3) b unfolding d by arith+
      from Suc.IH [OF Suc.prems(1) this] show ?thesis
        by (simp add: Some b)
    qed
  qed
qed

lemma SplitN_3: "SplitN s '' '' 3 = genSplit s '' '' 2"
proof (cases "length s < 2")
  case True
  then have "SplitN s '' '' 3 = genSplit s '' '' (length s)"
    by (simp add: SplitN_def)
  also have "\<dots> = genSplit s '' '' 2"
    using True by (intro genSplit_fuel) auto
  finally show ?thesis .
next
  case False
  then show ?thesis by (simp add: SplitN_def)
qed

lemma genSplit_2_shape:
  assumes "genSplit s [c] 2 = [a, b, r]"
  shows "s = a @ c # b @ c # r \<and> c \<notin> set a \<and> c \<notin> set b"
proof -
  from assms obtain m where m: "Index s [c] = Some m"
    by (cases "Index s [c]") (auto simp: eval_nat_numeral)
  from assms m obtain k where k: "Index (drop (Suc m) s) [c] = Some k"
    by (cases "Index (drop (Suc m) s) [c]") (auto simp: eval_nat_numeral)
  from assms m k have abr: "a = take m s" "b = take k (drop (Suc m) s)"
      "r = drop (Suc k) (drop (Suc m) s)"
    by (auto simp: eval_nat_numeral)
  from Index_single_split [OF m] Index_single_split [OF k] abr
  show ?thesis by metis
qed

lemma genSplit_NT:
  assumes "CHR '' '' \<notin> set x"
  shows "genSplit (x @ '' NT '' @ v) '' '' 2 = [x, ''NT'', v]"
proof -
  have "Index (x @ CHR '' '' # ''NT '' @ v) '' '' = Some (length x)"
    using assms by (rule Index_single_append)
  then show ?thesis
    by (simp add: eval_nat_numeral HasPrefix_single)
qed

section \<open>The normalizer rewrites the Windows NT names of its table\<close>

lemma normalizeOS_known:
  assumes "CHR '' '' \<notin> set x" and "map_of nt_versions v = Some w"
  shows "normalizeOS (x @ '' NT '' @ v) = w"
proof -
  have "SplitN (x @ '' NT '' @ v) '' '' 3 = [x, ''NT'', v]"
    unfolding SplitN_3 using assms(1) by (rule genSplit_NT)
  then show ?thesis
    using assms(2) by (simp add: normalizeOS_def nt_versions_def split: if_splits)
qed

lemma normalizeOS_changed:
  assumes "normalizeOS name \<noteq> name"
  shows "\<exists>x v. CHR '' '' \<notin> set x \<and> v \<in> dom (map_of nt_versions) \<and> name = x @ '' NT '' @ v"
proof -
  from assms obtain a b r where sp: "SplitN name '' '' 3 = [a, b, r]"
    by (auto simp: normalizeOS_def split: list.splits)
  with assms have b: "b = ''NT''" and r: "r \<in> dom (map_of nt_versions)"
    by (auto simp: normalizeOS_def nt_versions_def split: if_splits)
  from sp have "genSplit name [CHR '' ''] 2 = [a, b, r]"
    by (simp add: SplitN_3)
  from genSplit_2_shape [OF this] b have "name = a @ '' NT '' @ r" "CHR '' '' \<notin> set a"
    by auto
  with r show ?thesis by blast
qed

lemma normalizeOS_nonempty: "name \<noteq> [] \<Longrightarrow> normalizeOS name \<noteq> []"
  by (auto simp: normalizeOS_def split: list.splits)

lemma normalizeOS_NT_6_1: "normalizeOS ''Windows NT 6.1'' = ''Windows 7''"
  by (simp add: normalizeOS_def SplitN_def HasPrefix_def eval_nat_numeral)

lemma normalizeOS_NT_99_9: "normalizeOS ''Windows NT 99.9'' = ''Windows NT 99.9''"
  by (simp add: normalizeOS_def SplitN_def HasPrefix_def eval_nat_numeral)

text \<open>
  C3, as amended: \<^verbatim>\<open>normalizeOS\<close> is a function of its argument alone. It rewrites the
  inputs \<^verbatim>\<open><X> NT <version>\<close> of exactly three parts, \<^verbatim>\<open><X>\<close> without a space and
  \<^verbatim>\<open><version>\<close> a token of the table \<open>nt_versions\<close>, to the name that the table gives
  for the token, where \<^verbatim>\<open>5.01\<close> gives \<^verbatim>\<open>Windows 2000, Service Pack 1 (SP1)\<close>. Every
  other input comes back unchanged: \<^verbatim>\<open>Windows NT 6.1\<close> becomes \<^verbatim>\<open>Windows 7\<close>, and
  \<^verbatim>\<open>Windows NT 99.9\<close> stays.
\<close>

theorem normalizeOS_table:
  "(CHR '' '' \<notin> set x \<and> map_of nt_versions v = Some w \<longrightarrow>
      normalizeOS (x @ '' NT '' @ v) = w) \<and>
   ((\<nexists>x v. CHR '' '' \<notin> set x \<and> v \<in> dom (map_of nt_versions) \<and> name = x @ '' NT '' @ v) \<longrightarrow>
      normalizeOS name = name) \<and>
   normalizeOS ''Windows NT 6.1'' = ''Windows 7'' \<and>
   normalizeOS ''Windows NT 99.9'' = ''Windows NT 99.9''"
proof (intro conjI impI)
  assume "CHR '' '' \<notin> set x \<and> map_of nt_versions v = Some w"
  then show "normalizeOS (x @ '' NT '' @ v) = w"
    using normalizeOS_known by blast
next
  assume "\<nexists>x v. CHR '' '' \<notin> set x \<and> v \<in> dom (map_of nt_versions) \<and> name = x @ '' NT '' @ v"
  then show "normalizeOS name = name"
    using normalizeOS_changed [of name] by blast
next
  show "normalizeOS ''Windows NT 6.1'' = ''Windows 7''"
    by (rule normalizeOS_NT_6_1)
next
  show "normalizeOS ''Windows NT 99.9'' = ''Windows NT 99.9''"
    by (rule normalizeOS_NT_99_9)
qed

theorem normalizeOS_table_witness:
  "CHR '' '' \<notin> set ''Windows'' \<and>
   map_of nt_versions ''5.01'' = Some ''Windows 2000, Service Pack 1 (SP1)'' \<and>
   normalizeOS ''Windows NT 5.01'' = ''Windows 2000, Service Pack 1 (SP1)'' \<and>
   (\<nexists>x v. CHR '' '' \<notin> set x \<and> v \<in> dom (map_of nt_versions) \<and>
      ''Windows NT 99.9'' = x @ '' NT '' @ v) \<and>
   normalizeOS ''Windows NT 99.9'' = ''Windows NT 99.9''"
proof -
  have hyp1: "CHR '' '' \<notin> set ''Windows''"
    and hyp2: "map_of nt_versions ''5.01'' = Some ''Windows 2000, Service Pack 1 (SP1)''"
    by (simp_all add: nt_versions_def)
  have known: "normalizeOS (''Windows'' @ '' NT '' @ ''5.01'') =
      ''Windows 2000, Service Pack 1 (SP1)''"
    using normalizeOS_table
      [of "''Windows''" "''5.01''" "''Windows 2000, Service Pack 1 (SP1)''"] hyp1 hyp2
    by blast
  have other: "''Windows NT 99.9'' \<noteq> x @ '' NT '' @ v"
    if "CHR '' '' \<notin> set x" and "v \<in> dom (map_of nt_versions)" for x v
  proof
    assume eq: "''Windows NT 99.9'' = x @ '' NT '' @ v"
    from that(2) obtain w where w: "map_of nt_versions v = Some w" by blast
    with that(1) have "normalizeOS (x @ '' NT '' @ v) = w"
      using normalizeOS_table [of x v w] by blast
    with eq normalizeOS_NT_99_9 have "w = ''Windows NT 99.9''" by simp
    with w show False
      by (simp add: nt_versions_def split: if_splits)
  qed
  then have hyp3: "\<nexists>x v. CHR '' '' \<notin> set x \<and> v \<in> dom (map_of nt_versions) \<and>
      ''Windows NT 99.9'' = x @ '' NT '' @ v"
    by blast
  have same: "normalizeOS ''Windows NT 99.9'' = ''Windows NT 99.9''"
    using normalizeOS_table [of _ _ _ "''Windows NT 99.9''"] hyp3 by blast
  from known same hyp1 hyp2 hyp3 show ?thesis by simp
qed

theorem normalizeOS_table_counterexample:
  "normalizeOS ''Windows NT 5.01'' = ''Windows 2000, Service Pack 1 (SP1)'' \<and>
   normalizeOS ''Windows NT 5.01'' \<noteq> ''Windows 2000 SP1''"
  by (simp add: normalizeOS_def SplitN_def HasPrefix_def eval_nat_numeral)

section \<open>The Gecko heuristic\<close>

text \<open>
  C4: on a comment list of at least 2 tokens, \<^verbatim>\<open>gecko\<close> sets \<open>os\<close> to
  \<^verbatim>\<open>normalizeOS(comment[2])\<close>, or to \<^verbatim>\<open>normalizeOS(comment[1])\<close> when there is no third
  token, if \<^verbatim>\<open>comment[1]\<close> is \<^verbatim>\<open>U\<close> or \<^verbatim>\<open>arm_64\<close>; otherwise, if the platform contains
  \<^verbatim>\<open>Android\<close>, it sets \<open>mobile\<close>, the platform becomes \<^verbatim>\<open>normalizeOS(comment[1])\<close> and
  \<open>os\<close> becomes the platform of before.
\<close>

theorem gecko_os_rules:
  assumes "len comment \<ge> 2"
  shows "\<exists>p'. gecko p comment = Some p' \<and>
    (if comment ! 1 = ''U'' \<or> comment ! 1 = ''arm_64'' then
       os p' = normalizeOS (if len comment > 2 then comment ! 2 else comment ! 1)
     else (Contains (platform p) ''Android'' \<longrightarrow>
             mobile p' \<and> platform p' = normalizeOS (comment ! 1) \<and> os p' = platform p))"
  using assms by (simp add: gecko_def idx_def)

theorem gecko_os_rules_witness:
  "len [''Android'', ''Mobile'', ''rv:26.0''] \<ge> 2 \<and>
   Contains (platform (zeroUserAgent\<lparr>platform := ''Android''\<rparr>)) ''Android'' \<and>
   (\<exists>p'. gecko (zeroUserAgent\<lparr>platform := ''Android''\<rparr>)
            [''Android'', ''Mobile'', ''rv:26.0''] = Some p' \<and>
          mobile p' \<and> platform p' = ''Mobile'' \<and> os p' = ''Android'') \<and>
   len [''Windows'', ''U'', ''Windows NT 5.1'', ''en-US''] \<ge> 2 \<and>
   (\<exists>p'. gecko zeroUserAgent [''Windows'', ''U'', ''Windows NT 5.1'', ''en-US''] = Some p' \<and>
          os p' = ''Windows XP'')"
proof -
  have n1: "normalizeOS ''Mobile'' = ''Mobile''"
    and n2: "normalizeOS ''Windows NT 5.1'' = ''Windows XP''"
    by (simp_all add: normalizeOS_def SplitN_def HasPrefix_def eval_nat_numeral)
  have c: "Contains ''Android'' ''Android''"
    by (simp add: Contains_def HasPrefix_def)
  show ?thesis
    using gecko_os_rules
        [of "[''Android'', ''Mobile'', ''rv:26.0'']" "zeroUserAgent\<lparr>platform := ''Android''\<rparr>"]
      gecko_os_rules [of "[''Windows'', ''U'', ''Windows NT 5.1'', ''en-US'']" zeroUserAgent]
      n1 n2 c
    by (simp add: len_def zeroUserAgent_def)
qed

section \<open>The Trident heuristic\<close>

lemma trident_loop_mobile:
  "trident_loop q xs = q\<lparr>mobile := mobile q \<or> (\<exists>v\<in>set xs. HasPrefix v ''IEMobile'')\<rparr>"
  by (induction xs) auto

lemma trident_loop_first_match:
  "\<not> (\<exists>x\<in>set pre. HasPrefix x ''IEMobile'') \<Longrightarrow> HasPrefix v ''IEMobile'' \<Longrightarrow>
   trident_loop q (pre @ v # post) = q\<lparr>mobile := True\<rparr>"
  by (induction pre) auto

text \<open>
  C5: on every comment list, \<^verbatim>\<open>trident\<close> sets the platform to \<^verbatim>\<open>Windows\<close>; when \<open>os\<close>
  is still empty it sets it to \<^verbatim>\<open>normalizeOS(comment[2])\<close> if there are at least 3 tokens
  and to \<^verbatim>\<open>Windows NT 4.0\<close> otherwise; and it sets \<open>mobile\<close> exactly when some token has
  the prefix \<^verbatim>\<open>IEMobile\<close>. Nothing else changes. The scan stops at the first such token:
  the tokens after it are not looked at.
\<close>

theorem trident_rules:
  "trident p comment =
     Some (p\<lparr>platform := ''Windows'',
             os := (if os p = '''' then
                      (if len comment \<ge> 3 then normalizeOS (comment ! 2) else ''Windows NT 4.0'')
                    else os p),
             mobile := (mobile p \<or> (\<exists>v\<in>set comment. HasPrefix v ''IEMobile''))\<rparr>) \<and>
   (\<not> (\<exists>x\<in>set pre. HasPrefix x ''IEMobile'') \<and> HasPrefix v ''IEMobile'' \<longrightarrow>
      trident_loop q (pre @ v # post) = q\<lparr>mobile := True\<rparr>)"
proof (intro conjI impI)
  show "trident p comment =
     Some (p\<lparr>platform := ''Windows'',
             os := (if os p = '''' then
                      (if len comment \<ge> 3 then normalizeOS (comment ! 2) else ''Windows NT 4.0'')
                    else os p),
             mobile := (mobile p \<or> (\<exists>v\<in>set comment. HasPrefix v ''IEMobile''))\<rparr>)"
    by (simp add: trident_def idx_def trident_loop_mobile)
next
  assume "\<not> (\<exists>x\<in>set pre. HasPrefix x ''IEMobile'') \<and> HasPrefix v ''IEMobile''"
  then show "trident_loop q (pre @ v # post) = q\<lparr>mobile := True\<rparr>"
    using trident_loop_first_match by blast
qed

theorem trident_rules_witness:
  "trident zeroUserAgent [''compatible'', ''MSIE 6.0''] =
     Some (zeroUserAgent\<lparr>platform := ''Windows'', os := ''Windows NT 4.0''\<rparr>) \<and>
   trident zeroUserAgent
       [''compatible'', ''MSIE 9.0'', ''Windows Phone OS 7.5'', ''IEMobile/9.0'', ''NOKIA''] =
     Some (zeroUserAgent\<lparr>platform := ''Windows'', os := ''Windows Phone OS 7.5'',
                         mobile := True\<rparr>) \<and>
   \<not> (\<exists>x\<in>set [''compatible'', ''MSIE 9.0'', ''Windows Phone OS 7.5''].
         HasPrefix x ''IEMobile'') \<and>
   HasPrefix ''IEMobile/9.0'' ''IEMobile'' \<and>
   trident_loop zeroUserAgent
       ([''compatible'', ''MSIE 9.0'', ''Windows Phone OS 7.5''] @ ''IEMobile/9.0'' # [''NOKIA'']) =
     zeroUserAgent\<lparr>mobile := True\<rparr>"
proof -
  have n: "normalizeOS ''Windows Phone OS 7.5'' = ''Windows Phone OS 7.5''"
    by (simp add: normalizeOS_def SplitN_def HasPrefix_def eval_nat_numeral)
  have h: "\<not> (\<exists>x\<in>set [''compatible'', ''MSIE 9.0'', ''Windows Phone OS 7.5''].
         HasPrefix x ''IEMobile'')" "HasPrefix ''IEMobile/9.0'' ''IEMobile''"
    "\<not> HasPrefix ''NOKIA'' ''IEMobile''"
    by (simp_all add: HasPrefix_def)
  have a: "trident zeroUserAgent [''compatible'', ''MSIE 6.0''] =
     Some (zeroUserAgent\<lparr>platform := ''Windows'', os := ''Windows NT 4.0''\<rparr>)"
    using trident_rules [of zeroUserAgent "[''compatible'', ''MSIE 6.0'']"] h
    by (simp add: len_def zeroUserAgent_def HasPrefix_def)
  have b: "trident zeroUserAgent
       [''compatible'', ''MSIE 9.0'', ''Windows Phone OS 7.5'', ''IEMobile/9.0'', ''NOKIA''] =
     Some (zeroUserAgent\<lparr>platform := ''Windows'', os := ''Windows Phone OS 7.5'',
                         mobile := True\<rparr>)"
    using trident_rules [of zeroUserAgent
        "[''compatible'', ''MSIE 9.0'', ''Windows Phone OS 7.5'', ''IEMobile/9.0'', ''NOKIA'']"]
      h n
    by (simp add: len_def zeroUserAgent_def)
  have c: "trident_loop zeroUserAgent
       ([''compatible'', ''MSIE 9.0'', ''Windows Phone OS 7.5''] @ ''IEMobile/9.0'' # [''NOKIA'']) =
     zeroUserAgent\<lparr>mobile := True\<rparr>"
    using trident_rules [of _ _ "[''compatible'', ''MSIE 9.0'', ''Windows Phone OS 7.5'']"
        "''IEMobile/9.0''" zeroUserAgent "[''NOKIA'']"] h
    by blast
  from a b c h show ?thesis by blast
qed

section \<open>The WebKit heuristic\<close>

lemma webkit_loop_wv:
  "webkit_loop q xs =
     (if \<exists>c\<in>set xs. c = ''wv'' \<or> Contains c ''wv'' then
        q\<lparr>mobile := True,
           browser := (browser q)\<lparr>BrowserName :=
             (if Contains (BrowserName (browser q)) ''Chrome''
              then ''Chrome WebView'' else ''Android WebView'')\<rparr>\<rparr>
      else q)"
  by (induction xs) auto

lemma Contains_Chrome: "Contains ''Chrome'' ''Chrome''"
  by (simp add: Contains_def HasPrefix_def)

text \<open>
  C6: on a comment list with a token that is \<^verbatim>\<open>wv\<close> or contains \<^verbatim>\<open>wv\<close>, \<^verbatim>\<open>webkit\<close>
  sets \<open>mobile\<close> and renames the browser: \<^verbatim>\<open>Chrome WebView\<close> if its name contains
  \<^verbatim>\<open>Chrome\<close>, \<^verbatim>\<open>Android WebView\<close> otherwise, once, at the first such token. With the
  browser name \<^verbatim>\<open>Chrome\<close> the result is \<^verbatim>\<open>Chrome WebView\<close> and \<open>mobile\<close>.
\<close>

theorem webkit_wv:
  assumes "\<exists>c\<in>set comment. c = ''wv'' \<or> Contains c ''wv''"
  shows "\<exists>p'. webkit p comment = Some p' \<and> mobile p' \<and>
           BrowserName (browser p') =
             (if Contains (BrowserName (browser p)) ''Chrome''
              then ''Chrome WebView'' else ''Android WebView'') \<and>
           (BrowserName (browser p) = ''Chrome'' \<longrightarrow>
              BrowserName (browser p') = ''Chrome WebView'')"
proof -
  obtain pl where pl: "getPlatform comment = Some pl"
    using getPlatform_total by blast
  show ?thesis using assms pl Contains_Chrome
    by (simp add: webkit_def idx_def webkit_loop_wv)
qed

theorem webkit_wv_witness:
  "(\<exists>c\<in>set [''Linux'', ''Android 10'', ''wv'']. c = ''wv'' \<or> Contains c ''wv'') \<and>
   BrowserName (browser (zeroUserAgent\<lparr>browser :=
      \<lparr>Engine = ''AppleWebKit'', BrowserName = ''Chrome'', BrowserVersion = ''80.0''\<rparr>\<rparr>))
     = ''Chrome'' \<and>
   (\<exists>p'. webkit (zeroUserAgent\<lparr>browser :=
              \<lparr>Engine = ''AppleWebKit'', BrowserName = ''Chrome'', BrowserVersion = ''80.0''\<rparr>\<rparr>)
            [''Linux'', ''Android 10'', ''wv''] = Some p' \<and>
          mobile p' \<and> BrowserName (browser p') = ''Chrome WebView'')"
  using webkit_wv [of "[''Linux'', ''Android 10'', ''wv'']"
      "zeroUserAgent\<lparr>browser :=
         \<lparr>Engine = ''AppleWebKit'', BrowserName = ''Chrome'', BrowserVersion = ''80.0''\<rparr>\<rparr>"]
  by (auto simp: zeroUserAgent_def)

section \<open>The dispatcher on a first section named \<^verbatim>\<open>Mozilla\<close>\<close>

lemma idx_0_Cons: "idx (x # xs) 0 = Some x"
  by (simp add: idx_def len_def)

lemma len_Cons_pos: "len (x # xs) \<noteq> 0" "0 < len (x # xs)"
  by (simp_all add: len_def)

lemma detectOS_Mozilla:
  assumes "sec_name s = ''Mozilla''"
  shows "detectOS p (s # rest) = do {
          pl \<leftarrow> getPlatform (sec_comment s);
          p2 \<leftarrow> Some (if pl = ''Windows'' \<and> len (sec_comment s) > 0
                       then p\<lparr>platform := pl, os := normalizeOS (sec_comment s ! 0)\<rparr>
                       else p\<lparr>platform := pl\<rparr>);
          if Engine (browser p) = '''' then Some (p2\<lparr>undecided := True\<rparr>)
          else if Engine (browser p) = ''Gecko'' then gecko p2 (sec_comment s)
          else if Engine (browser p) = ''AppleWebKit'' then do {
            p3 \<leftarrow> webkit p2 (sec_comment s);
            Some (detectOS_loop p3 (s # rest))
          }
          else if Engine (browser p) = ''Trident'' then trident p2 (sec_comment s)
          else Some p2
        }"
proof -
  obtain pl where pl: "getPlatform (sec_comment s) = Some pl"
    using getPlatform_total by blast
  show ?thesis using assms pl
    by (simp add: detectOS_def idx_0_Cons len_Cons_pos idx_def)
qed

lemma getPlatform_Windows:
  assumes "getPlatform c = Some ''Windows''"
  shows "0 < len c \<and> HasPrefix (c ! 0) ''Windows''"
proof -
  have "HasPrefix ''Windows'' ''Windows''"
    by (simp add: HasPrefix_def)
  with assms show ?thesis
    by (auto simp: getPlatform_def idx_def split: if_splits)
qed

lemma HasPrefix_Windows:
  assumes "HasPrefix c0 ''Windows''"
  shows "c0 \<noteq> '''' \<and> c0 \<noteq> ''Mobile'' \<and> c0 \<noteq> ''Tablet''"
  using assms by (auto simp: HasPrefix_def)

lemma not_Contains_Windows_Android: "\<not> Contains ''Windows'' ''Android''"
  by (simp add: Contains_def HasPrefix_def)

section \<open>Which writes of \<open>os\<close> keep an earlier value\<close>

lemma webkit_loop_os: "os (webkit_loop q xs) = os q"
  by (simp add: webkit_loop_wv)

lemma trident_loop_os: "os (trident_loop q xs) = os q"
  by (simp add: trident_loop_mobile)

lemma detectOS_loop_os: "os (detectOS_loop q xs) = os q"
  by (induction xs) auto

lemma webkit_keeps_os: "os q \<noteq> '''' \<Longrightarrow> map_option os (webkit q c) = Some (os q)"
proof -
  obtain pl where pl: "getPlatform c = Some pl"
    using getPlatform_total by blast
  assume "os q \<noteq> ''''"
  then show ?thesis using pl
    by (simp add: webkit_def webkit_loop_os)
qed

lemma trident_keeps_os: "os q \<noteq> '''' \<Longrightarrow> map_option os (trident q c) = Some (os q)"
  by (simp add: trident_def trident_loop_os)

lemma gecko_keeps_os:
  assumes "os q \<noteq> ''''"
    and "\<not> (len c > 1 \<and> (c ! 1 = ''U'' \<or> c ! 1 = ''arm_64''))"
    and "\<not> Contains (platform q) ''Android''"
    and "\<not> (len c > 1 \<and> (c ! 0 = ''Mobile'' \<or> c ! 0 = ''Tablet''))"
  shows "map_option os (gecko q c) = Some (os q)"
  using assms by (simp add: gecko_def idx_def)

text \<open>
  The other writes are unguarded: the three first branches of \<^verbatim>\<open>gecko\<close>, and \<^verbatim>\<open>opera\<close>
  and \<^verbatim>\<open>dalvik\<close>, which \<^verbatim>\<open>detectOS\<close> runs on the record as the caller passed it.
\<close>

lemma gecko_U_overwrites_os:
  "len c > 2 \<Longrightarrow> c ! 1 = ''U'' \<or> c ! 1 = ''arm_64'' \<Longrightarrow>
   map_option os (gecko q c) = Some (normalizeOS (c ! 2))"
  by (simp add: gecko_def idx_def)

lemma opera_overwrites_os:
  "len c > 1 \<Longrightarrow> \<not> HasPrefix (c ! 0) ''Windows'' \<Longrightarrow> map_option os (opera q c) = Some (c ! 1)"
  by (simp add: opera_def idx_def)

text \<open>
  C2, as amended: in one run of \<^verbatim>\<open>detectOS\<close>, \<^verbatim>\<open>webkit\<close>, \<^verbatim>\<open>trident\<close> and the last
  branch of \<^verbatim>\<open>gecko\<close> write \<open>os\<close> only when it is still empty, so they keep an \<open>os\<close>
  that is set; the branch of \<^verbatim>\<open>gecko\<close> for \<^verbatim>\<open>comment[1]\<close> equal to \<^verbatim>\<open>U\<close> or \<^verbatim>\<open>arm_64\<close>
  writes it without the check. So the \<open>os\<close> that the \<^verbatim>\<open>Mozilla\<close> branch sets from a
  Windows first token, which is never empty, is the \<open>os\<close> at the end for every section
  list and engine tag, except when the engine is \<^verbatim>\<open>Gecko\<close> and \<^verbatim>\<open>comment[1]\<close> is \<^verbatim>\<open>U\<close>
  or \<^verbatim>\<open>arm_64\<close>.
\<close>

theorem detectOS_os_write_once:
  "(os q \<noteq> '''' \<longrightarrow>
      map_option os (webkit q c) = Some (os q) \<and>
      map_option os (trident q c) = Some (os q) \<and>
      (\<not> (len c > 1 \<and> (c ! 1 = ''U'' \<or> c ! 1 = ''arm_64'')) \<and>
       \<not> Contains (platform q) ''Android'' \<and>
       \<not> (len c > 1 \<and> (c ! 0 = ''Mobile'' \<or> c ! 0 = ''Tablet'')) \<longrightarrow>
         map_option os (gecko q c) = Some (os q))) \<and>
   (sec_name s = ''Mozilla'' \<and> getPlatform (sec_comment s) = Some ''Windows'' \<and>
    \<not> (Engine (browser p) = ''Gecko'' \<and> len (sec_comment s) > 1 \<and>
        (sec_comment s ! 1 = ''U'' \<or> sec_comment s ! 1 = ''arm_64'')) \<longrightarrow>
      normalizeOS (sec_comment s ! 0) \<noteq> '''' \<and>
      map_option os (detectOS p (s # rest)) = Some (normalizeOS (sec_comment s ! 0)))"
proof (intro conjI impI)
  assume "os q \<noteq> ''''"
  then show "map_option os (webkit q c) = Some (os q)"
    by (rule webkit_keeps_os)
next
  assume "os q \<noteq> ''''"
  then show "map_option os (trident q c) = Some (os q)"
    by (rule trident_keeps_os)
next
  assume "os q \<noteq> ''''"
    and "\<not> (len c > 1 \<and> (c ! 1 = ''U'' \<or> c ! 1 = ''arm_64'')) \<and>
       \<not> Contains (platform q) ''Android'' \<and>
       \<not> (len c > 1 \<and> (c ! 0 = ''Mobile'' \<or> c ! 0 = ''Tablet''))"
  then show "map_option os (gecko q c) = Some (os q)"
    using gecko_keeps_os by blast
next
  assume a: "sec_name s = ''Mozilla'' \<and> getPlatform (sec_comment s) = Some ''Windows'' \<and>
    \<not> (Engine (browser p) = ''Gecko'' \<and> len (sec_comment s) > 1 \<and>
        (sec_comment s ! 1 = ''U'' \<or> sec_comment s ! 1 = ''arm_64''))"
  then have w: "0 < len (sec_comment s)" "HasPrefix (sec_comment s ! 0) ''Windows''"
    using getPlatform_Windows by blast+
  from HasPrefix_Windows [OF w(2)] have c0: "sec_comment s ! 0 \<noteq> ''''"
      "sec_comment s ! 0 \<noteq> ''Mobile''" "sec_comment s ! 0 \<noteq> ''Tablet''"
    by blast+
  show ne: "normalizeOS (sec_comment s ! 0) \<noteq> ''''"
    using c0(1) by (rule normalizeOS_nonempty)
  define p2 where "p2 = p\<lparr>platform := ''Windows'', os := normalizeOS (sec_comment s ! 0)\<rparr>"
  have p2: "os p2 = normalizeOS (sec_comment s ! 0)" "platform p2 = ''Windows''"
      "os p2 \<noteq> ''''"
    using ne by (simp_all add: p2_def)
  have d: "detectOS p (s # rest) =
          (if Engine (browser p) = '''' then Some (p2\<lparr>undecided := True\<rparr>)
          else if Engine (browser p) = ''Gecko'' then gecko p2 (sec_comment s)
          else if Engine (browser p) = ''AppleWebKit'' then do {
            p3 \<leftarrow> webkit p2 (sec_comment s);
            Some (detectOS_loop p3 (s # rest))
          }
          else if Engine (browser p) = ''Trident'' then trident p2 (sec_comment s)
          else Some p2)"
    using a w(1) by (simp add: detectOS_Mozilla p2_def)
  have g: "map_option os (gecko p2 (sec_comment s)) = Some (os p2)"
    if "Engine (browser p) = ''Gecko''"
    using that a c0 p2 not_Contains_Windows_Android
    by (intro gecko_keeps_os) auto
  have k: "map_option os
      (webkit p2 (sec_comment s) \<bind> (\<lambda>p3. Some (detectOS_loop p3 (s # rest)))) = Some (os p2)"
    using webkit_keeps_os [OF p2(3), of "sec_comment s"]
    by (cases "webkit p2 (sec_comment s)") (auto simp: detectOS_loop_os)
  have t: "map_option os (trident p2 (sec_comment s)) = Some (os p2)"
    using p2(3) by (rule trident_keeps_os)
  show "map_option os (detectOS p (s # rest)) = Some (normalizeOS (sec_comment s ! 0))"
    unfolding d using g k t p2(1) by simp
qed

theorem detectOS_os_write_once_witness:
  "os (zeroUserAgent\<lparr>platform := ''Windows'', os := ''Windows 10''\<rparr>) \<noteq> '''' \<and>
   \<not> (len [''Windows NT 10.0'', ''Win64'', ''x64''] > 1 \<and>
      ([''Windows NT 10.0'', ''Win64'', ''x64''] ! 1 = ''U'' \<or>
       [''Windows NT 10.0'', ''Win64'', ''x64''] ! 1 = ''arm_64'')) \<and>
   \<not> Contains (platform (zeroUserAgent\<lparr>platform := ''Windows'', os := ''Windows 10''\<rparr>))
       ''Android'' \<and>
   map_option os (gecko (zeroUserAgent\<lparr>platform := ''Windows'', os := ''Windows 10''\<rparr>)
                    [''Windows NT 10.0'', ''Win64'', ''x64'']) = Some ''Windows 10'' \<and>
   map_option os (webkit (zeroUserAgent\<lparr>platform := ''Windows'', os := ''Windows 10''\<rparr>)
                    [''Windows NT 10.0'', ''Win64'', ''x64'']) = Some ''Windows 10'' \<and>
   map_option os (trident (zeroUserAgent\<lparr>platform := ''Windows'', os := ''Windows 10''\<rparr>)
                    [''Windows NT 10.0'', ''Win64'', ''x64'']) = Some ''Windows 10'' \<and>
   getPlatform [''Windows NT 10.0'', ''Win64'', ''x64''] = Some ''Windows'' \<and>
   map_option os
     (detectOS
        (zeroUserAgent\<lparr>browser := \<lparr>Engine = ''Gecko'', BrowserName = ''Firefox'',
                                    BrowserVersion = ''115.0''\<rparr>\<rparr>)
        [\<lparr>sec_name = ''Mozilla'', sec_version = ''5.0'',
          sec_comment = [''Windows NT 10.0'', ''Win64'', ''x64'']\<rparr>]) = Some ''Windows 10''"
proof -
  have n: "normalizeOS ''Windows NT 10.0'' = ''Windows 10''"
    by (simp add: normalizeOS_def SplitN_def HasPrefix_def eval_nat_numeral)
  have gp: "getPlatform [''Windows NT 10.0'', ''Win64'', ''x64''] = Some ''Windows''"
    by (simp add: getPlatform_def idx_def len_def HasPrefix_def)
  show ?thesis
    using detectOS_os_write_once
      [of "zeroUserAgent\<lparr>platform := ''Windows'', os := ''Windows 10''\<rparr>"
          "[''Windows NT 10.0'', ''Win64'', ''x64'']"
          "\<lparr>sec_name = ''Mozilla'', sec_version = ''5.0'',
            sec_comment = [''Windows NT 10.0'', ''Win64'', ''x64'']\<rparr>"
          "zeroUserAgent\<lparr>browser := \<lparr>Engine = ''Gecko'', BrowserName = ''Firefox'',
                                      BrowserVersion = ''115.0''\<rparr>\<rparr>"
          "[]"]
      n gp not_Contains_Windows_Android
    by (simp add: zeroUserAgent_def len_def)
qed

theorem detectOS_os_write_once_counterexample:
  "normalizeOS ''Windows'' = ''Windows'' \<and>
   map_option os
     (gecko (zeroUserAgent\<lparr>platform := ''Windows'', os := ''Windows''\<rparr>)
        [''Windows'', ''U'', ''Windows NT 5.1'', ''en-US'', ''rv:1.9'']) = Some ''Windows XP'' \<and>
   map_option os
     (detectOS
        (zeroUserAgent\<lparr>browser := \<lparr>Engine = ''Gecko'', BrowserName = ''Firefox'',
                                    BrowserVersion = ''3.0''\<rparr>\<rparr>)
        [\<lparr>sec_name = ''Mozilla'', sec_version = ''5.0'',
          sec_comment = [''Windows'', ''U'', ''Windows NT 5.1'', ''en-US'', ''rv:1.9'']\<rparr>])
     = Some ''Windows XP''"
  by (simp add: detectOS_def gecko_def getPlatform_def idx_def len_def zeroUserAgent_def
      normalizeOS_def SplitN_def HasPrefix_def Contains_def eval_nat_numeral)

section \<open>What \<^verbatim>\<open>EqualFold\<close> decides against an ASCII literal\<close>

lemma DecodeRuneInString_ascii:
  "(of_char c :: nat) < 0x80 \<Longrightarrow> DecodeRuneInString (c # s) = (of_char c, 1)"
  by (simp add: DecodeRuneInString_def)

lemma runes_ascii: "isASCII t \<Longrightarrow> runes t = map of_char t"
  by (induction t) (simp_all add: isASCII_def DecodeRuneInString_ascii)

lemma sameFold_ascii_right: "tr < 0x80 \<Longrightarrow> sameFold other sr tr = sameFold other' sr tr"
  by (simp add: sameFold_def)

text \<open>
  Against an ASCII string the result is the same whatever the Unicode tables say of the
  runes from \<^verbatim>\<open>0x80\<close> on: on the names \<^verbatim>\<open>Chrome\<close> and \<^verbatim>\<open>Version\<close> the model
  decides as the library does.
\<close>

lemma EqualFoldWith_ascii_pattern:
  assumes "isASCII t"
  shows "EqualFoldWith other s t = EqualFoldWith other' s t"
proof -
  have "list_all2 (sameFold other) rs (map of_char t) =
      list_all2 (sameFold other') rs (map of_char t)" for rs
    using assms
  proof (induction t arbitrary: rs)
    case Nil
    then show ?case by simp
  next
    case (Cons c t)
    then have c: "(of_char c :: nat) < 0x80" and t: "isASCII t"
      by (simp_all add: isASCII_def)
    show ?case
    proof (cases rs)
      case Nil
      then show ?thesis by simp
    next
      case (Cons r rs')
      then show ?thesis
        using Cons.IH [OF t, of rs'] sameFold_ascii_right [OF c, of other r other'] by simp
    qed
  qed
  then show ?thesis
    using assms by (simp add: EqualFoldWith_def runes_ascii)
qed

lemma sameFold_ascii_both:
  "a < 0x80 \<Longrightarrow> b < 0x80 \<Longrightarrow> sameFold other a b = (lowerASCII a = lowerASCII b)"
  by (auto simp: sameFold_def asciiOrbit_def lowerASCII_def)

lemma list_all2_sameFold_ascii:
  "list_all (\<lambda>a. a < 0x80) xs \<Longrightarrow> list_all (\<lambda>a. a < 0x80) ys \<Longrightarrow>
   list_all2 (sameFold other) xs ys = (map lowerASCII xs = map lowerASCII ys)"
proof (induction xs arbitrary: ys)
  case Nil
  then show ?case by auto
next
  case (Cons x xs)
  show ?case
  proof (cases ys)
    case Nil
    then show ?thesis by simp
  next
    case ys: (Cons y ys')
    with Cons.prems have "x < 0x80" "y < 0x80"
        "list_all (\<lambda>a. a < 0x80) xs" "list_all (\<lambda>a. a < 0x80) ys'"
      by simp_all
    then show ?thesis
      using Cons.IH [of ys'] sameFold_ascii_both [of x y other] ys by simp
  qed
qed

text \<open>Two ASCII strings match exactly when they are equal up to the case of letters.\<close>

lemma EqualFold_ascii:
  assumes "isASCII s" and "isASCII t"
  shows "EqualFold s t = (map (lowerASCII \<circ> of_char) s = map (lowerASCII \<circ> of_char) t)"
proof -
  have "EqualFold s t =
      list_all2 (sameFold (\<lambda>sr tr. False)) (map of_char s) (map of_char t)"
    using assms by (simp only: EqualFold_def EqualFoldWith_def runes_ascii)
  also have "\<dots> = (map lowerASCII (map of_char s) = map lowerASCII (map of_char t))"
    using assms by (intro list_all2_sameFold_ascii) (simp_all add: isASCII_def list_all_iff)
  finally show ?thesis by simp
qed

text \<open>
  A name with the long s, \<^verbatim>\<open>U+017F\<close>, encoded as the bytes \<^verbatim>\<open>C5 BF\<close>, matches
  \<^verbatim>\<open>Version\<close>; the Kelvin sign, \<^verbatim>\<open>E2 84 AA\<close>, matches \<^verbatim>\<open>k\<close>.
\<close>

lemma EqualFold_long_s:
  "EqualFold [CHR ''V'', CHR ''e'', CHR ''r'', CHR 0xC5, CHR 0xBF, CHR ''i'', CHR ''o'', CHR ''n'']
     ''Version''"
  by code_simp

lemma EqualFold_Kelvin: "EqualFold [CHR 0xE2, CHR 0x84, CHR 0xAA] ''k''"
  by code_simp

section \<open>The browser name from the later sections\<close>

lemma detectOS_loop_first:
  assumes "\<not> (\<exists>x\<in>set pre. EqualFold (sec_name x) ''Chrome'' \<or> EqualFold (sec_name x) ''Version'')"
    and "EqualFold (sec_name sec) ''Chrome'' \<or> EqualFold (sec_name sec) ''Version''"
  shows "detectOS_loop q (pre @ sec # post) =
     q\<lparr>browser := (browser q)\<lparr>
          BrowserName := (if EqualFold (sec_name sec) ''Chrome'' then ''Chrome''
                          else ''Android WebView''),
          BrowserVersion := sec_version sec\<rparr>\<rparr>"
  using assms by (induction pre) auto

text \<open>
  C9: when the first section is named \<^verbatim>\<open>Mozilla\<close> and the engine tag is
  \<^verbatim>\<open>AppleWebKit\<close>, the first section in order whose name is \<^verbatim>\<open>Chrome\<close> or \<^verbatim>\<open>Version\<close>
  under \<^verbatim>\<open>EqualFold\<close> decides the browser after \<^verbatim>\<open>webkit\<close> has run: the name is
  \<^verbatim>\<open>Chrome\<close> or \<^verbatim>\<open>Android WebView\<close> respectively, and the version is that section's,
  whatever name \<^verbatim>\<open>webkit\<close> had set for a \<^verbatim>\<open>wv\<close> token. An ASCII name matches under
  \<^verbatim>\<open>EqualFold\<close> exactly when it is the same up to the case of its letters.
\<close>

theorem detectOS_browser_from_sections:
  assumes "sections = pre @ sec # post"
    and "sec_name (hd sections) = ''Mozilla''"
    and "Engine (browser p) = ''AppleWebKit''"
    and "\<not> (\<exists>x\<in>set pre. EqualFold (sec_name x) ''Chrome'' \<or> EqualFold (sec_name x) ''Version'')"
    and "EqualFold (sec_name sec) ''Chrome'' \<or> EqualFold (sec_name sec) ''Version''"
  shows "(\<exists>p'. detectOS p sections = Some p' \<and>
           BrowserName (browser p') =
             (if EqualFold (sec_name sec) ''Chrome'' then ''Chrome'' else ''Android WebView'') \<and>
           BrowserVersion (browser p') = sec_version sec) \<and>
         (isASCII nm \<longrightarrow>
            EqualFold nm ''Chrome'' =
              (map (lowerASCII \<circ> of_char) nm = map (lowerASCII \<circ> of_char) ''chrome'') \<and>
            EqualFold nm ''Version'' =
              (map (lowerASCII \<circ> of_char) nm = map (lowerASCII \<circ> of_char) ''version''))"
proof (intro conjI impI)
  have "sections \<noteq> []"
    using assms(1) by simp
  then obtain s rest where sr: "sections = s # rest"
    by (cases sections) auto
  with assms(2) have moz: "sec_name s = ''Mozilla''" by simp
  obtain pl where pl: "getPlatform (sec_comment s) = Some pl"
    using getPlatform_total by blast
  define p2 where "p2 = (if pl = ''Windows'' \<and> len (sec_comment s) > 0
                       then p\<lparr>platform := pl, os := normalizeOS (sec_comment s ! 0)\<rparr>
                       else p\<lparr>platform := pl\<rparr>)"
  obtain p3 where p3: "webkit p2 (sec_comment s) = Some p3"
    using webkit_total by blast
  have "detectOS p sections = Some (detectOS_loop p3 sections)"
    using assms(3) pl p3 unfolding sr detectOS_Mozilla [OF moz] p2_def by simp
  moreover have "detectOS_loop p3 sections =
     p3\<lparr>browser := (browser p3)\<lparr>
          BrowserName := (if EqualFold (sec_name sec) ''Chrome'' then ''Chrome''
                          else ''Android WebView''),
          BrowserVersion := sec_version sec\<rparr>\<rparr>"
    unfolding assms(1) using assms(4,5) by (rule detectOS_loop_first)
  ultimately show "\<exists>p'. detectOS p sections = Some p' \<and>
           BrowserName (browser p') =
             (if EqualFold (sec_name sec) ''Chrome'' then ''Chrome'' else ''Android WebView'') \<and>
           BrowserVersion (browser p') = sec_version sec"
    by simp
next
  assume nm: "isASCII nm"
  have "isASCII ''Chrome''"
    by (simp add: isASCII_def)
  from EqualFold_ascii [OF nm this]
  show "EqualFold nm ''Chrome'' =
      (map (lowerASCII \<circ> of_char) nm = map (lowerASCII \<circ> of_char) ''chrome'')"
    by (simp add: lowerASCII_def)
next
  assume nm: "isASCII nm"
  have "isASCII ''Version''"
    by (simp add: isASCII_def)
  from EqualFold_ascii [OF nm this]
  show "EqualFold nm ''Version'' =
      (map (lowerASCII \<circ> of_char) nm = map (lowerASCII \<circ> of_char) ''version'')"
    by (simp add: lowerASCII_def)
qed

text \<open>
  The section list of the example has a \<^verbatim>\<open>wv\<close> token, for which \<^verbatim>\<open>webkit\<close> sets
  \<^verbatim>\<open>Chrome WebView\<close>, then a section whose name is \<^verbatim>\<open>Version\<close> written with the long
  s, then a section \<^verbatim>\<open>CHROME\<close>.
\<close>

theorem detectOS_browser_from_sections_witness:
  "sec_name (hd ([\<lparr>sec_name = ''Mozilla'', sec_version = ''5.0'',
                    sec_comment = [''Linux'', ''Android 10'', ''wv'']\<rparr>] @
                 \<lparr>sec_name = [CHR ''V'', CHR ''e'', CHR ''r'', CHR 0xC5, CHR 0xBF,
                               CHR ''i'', CHR ''o'', CHR ''n''],
                   sec_version = ''9.9'', sec_comment = []\<rparr> #
                 [\<lparr>sec_name = ''CHROME'', sec_version = ''1.2'', sec_comment = []\<rparr>]))
     = ''Mozilla'' \<and>
   \<not> (\<exists>x\<in>set [\<lparr>sec_name = ''Mozilla'', sec_version = ''5.0'',
                   sec_comment = [''Linux'', ''Android 10'', ''wv'']\<rparr>].
        EqualFold (sec_name x) ''Chrome'' \<or> EqualFold (sec_name x) ''Version'') \<and>
   EqualFold [CHR ''V'', CHR ''e'', CHR ''r'', CHR 0xC5, CHR 0xBF, CHR ''i'', CHR ''o'', CHR ''n'']
     ''Version'' \<and>
   \<not> EqualFold [CHR ''V'', CHR ''e'', CHR ''r'', CHR 0xC5, CHR 0xBF, CHR ''i'', CHR ''o'', CHR ''n'']
     ''Chrome'' \<and>
   map_option (BrowserName \<circ> browser)
     (webkit (zeroUserAgent\<lparr>platform := ''Linux'', browser :=
                \<lparr>Engine = ''AppleWebKit'', BrowserName = ''Chrome'',
                  BrowserVersion = ''80.0''\<rparr>\<rparr>)
        [''Linux'', ''Android 10'', ''wv'']) = Some ''Chrome WebView'' \<and>
   (\<exists>p'. detectOS (zeroUserAgent\<lparr>browser :=
                  \<lparr>Engine = ''AppleWebKit'', BrowserName = ''Chrome'',
                    BrowserVersion = ''80.0''\<rparr>\<rparr>)
        [\<lparr>sec_name = ''Mozilla'', sec_version = ''5.0'',
          sec_comment = [''Linux'', ''Android 10'', ''wv'']\<rparr>,
         \<lparr>sec_name = [CHR ''V'', CHR ''e'', CHR ''r'', CHR 0xC5, CHR 0xBF,
                       CHR ''i'', CHR ''o'', CHR ''n''],
          sec_version = ''9.9'', sec_comment = []\<rparr>,
         \<lparr>sec_name = ''CHROME'', sec_version = ''1.2'', sec_comment = []\<rparr>] = Some p' \<and>
      BrowserName (browser p') = ''Android WebView'' \<and>
      BrowserVersion (browser p') = ''9.9'') \<and>
   isASCII ''CHROME'' \<and> EqualFold ''CHROME'' ''Chrome'' \<and> \<not> EqualFold ''CHROME'' ''Version''"
proof -
  have e: "\<not> EqualFold ''Mozilla'' ''Chrome''" "\<not> EqualFold ''Mozilla'' ''Version''"
      "\<not> EqualFold [CHR ''V'', CHR ''e'', CHR ''r'', CHR 0xC5, CHR 0xBF,
                      CHR ''i'', CHR ''o'', CHR ''n''] ''Chrome''"
    by code_simp+
  note ls = EqualFold_long_s
  have w: "map_option (BrowserName \<circ> browser)
     (webkit (zeroUserAgent\<lparr>platform := ''Linux'', browser :=
                \<lparr>Engine = ''AppleWebKit'', BrowserName = ''Chrome'',
                  BrowserVersion = ''80.0''\<rparr>\<rparr>)
        [''Linux'', ''Android 10'', ''wv'']) = Some ''Chrome WebView''"
    by (simp add: webkit_def webkit_loop_wv idx_def len_def Contains_Chrome zeroUserAgent_def)
  have a: "isASCII ''CHROME''"
    by (simp add: isASCII_def)
  note inst = detectOS_browser_from_sections
      [of _ "[\<lparr>sec_name = ''Mozilla'', sec_version = ''5.0'',
                sec_comment = [''Linux'', ''Android 10'', ''wv'']\<rparr>]"
          "\<lparr>sec_name = [CHR ''V'', CHR ''e'', CHR ''r'', CHR 0xC5, CHR 0xBF,
                         CHR ''i'', CHR ''o'', CHR ''n''],
            sec_version = ''9.9'', sec_comment = []\<rparr>"
          "[\<lparr>sec_name = ''CHROME'', sec_version = ''1.2'', sec_comment = []\<rparr>]"
          "zeroUserAgent\<lparr>browser :=
                  \<lparr>Engine = ''AppleWebKit'', BrowserName = ''Chrome'',
                    BrowserVersion = ''80.0''\<rparr>\<rparr>"
          "''CHROME''", OF refl]
  have d: "\<exists>p'. detectOS (zeroUserAgent\<lparr>browser :=
                  \<lparr>Engine = ''AppleWebKit'', BrowserName = ''Chrome'',
                    BrowserVersion = ''80.0''\<rparr>\<rparr>)
        [\<lparr>sec_name = ''Mozilla'', sec_version = ''5.0'',
          sec_comment = [''Linux'', ''Android 10'', ''wv'']\<rparr>,
         \<lparr>sec_name = [CHR ''V'', CHR ''e'', CHR ''r'', CHR 0xC5, CHR 0xBF,
                       CHR ''i'', CHR ''o'', CHR ''n''],
          sec_version = ''9.9'', sec_comment = []\<rparr>,
         \<lparr>sec_name = ''CHROME'', sec_version = ''1.2'', sec_comment = []\<rparr>] = Some p' \<and>
      BrowserName (browser p') = ''Android WebView'' \<and>
      BrowserVersion (browser p') = ''9.9''"
    using inst e ls by (auto simp: zeroUserAgent_def)
  have c: "EqualFold ''CHROME'' ''Chrome''" "\<not> EqualFold ''CHROME'' ''Version''"
    using inst e ls a by (auto simp: zeroUserAgent_def lowerASCII_def)
  show ?thesis
    using e ls w a d c by simp
qed

section \<open>An engine tag or a first section that the dispatcher does not know\<close>

text \<open>
  C10: when the first section is named \<^verbatim>\<open>Mozilla\<close> and the engine tag is none of the
  empty string, \<^verbatim>\<open>Gecko\<close>, \<^verbatim>\<open>AppleWebKit\<close> and \<^verbatim>\<open>Trident\<close>, \<^verbatim>\<open>detectOS\<close> runs no
  heuristic: it sets the platform from the comment, and \<open>os\<close> when the platform is
  \<^verbatim>\<open>Windows\<close>, and leaves \<open>undecided\<close> and everything else as they were. When the name
  of the first section is none of \<^verbatim>\<open>Mozilla\<close>, \<^verbatim>\<open>Opera\<close>, \<^verbatim>\<open>Dalvik\<close> and \<^verbatim>\<open>okhttp\<close>,
  it sets \<open>undecided\<close> and nothing else.
\<close>

theorem detectOS_unknown_engine:
  "(sec_name s = ''Mozilla'' \<and>
    Engine (browser p) \<notin> {'''', ''Gecko'', ''AppleWebKit'', ''Trident''} \<longrightarrow>
      (\<exists>pl. getPlatform (sec_comment s) = Some pl \<and>
         detectOS p (s # rest) =
           Some (p\<lparr>platform := pl,
                   os := (if pl = ''Windows'' then normalizeOS (sec_comment s ! 0)
                          else os p)\<rparr>)) \<and>
      map_option undecided (detectOS p (s # rest)) = Some (undecided p)) \<and>
   (sec_name s \<notin> {''Mozilla'', ''Opera'', ''Dalvik'', ''okhttp''} \<longrightarrow>
      detectOS p (s # rest) = Some (p\<lparr>undecided := True\<rparr>))"
proof (intro conjI impI)
  assume a: "sec_name s = ''Mozilla'' \<and>
    Engine (browser p) \<notin> {'''', ''Gecko'', ''AppleWebKit'', ''Trident''}"
  obtain pl where pl: "getPlatform (sec_comment s) = Some pl"
    using getPlatform_total by blast
  have w: "pl = ''Windows'' \<Longrightarrow> len (sec_comment s) > 0"
    using pl getPlatform_Windows by blast
  have d: "detectOS p (s # rest) =
          Some (p\<lparr>platform := pl,
                  os := (if pl = ''Windows'' then normalizeOS (sec_comment s ! 0) else os p)\<rparr>)"
    using a pl w by (simp add: detectOS_Mozilla)
  show "\<exists>pl. getPlatform (sec_comment s) = Some pl \<and>
        detectOS p (s # rest) =
          Some (p\<lparr>platform := pl,
                  os := (if pl = ''Windows'' then normalizeOS (sec_comment s ! 0) else os p)\<rparr>)"
    using pl d by blast
  show "map_option undecided (detectOS p (s # rest)) = Some (undecided p)"
    using d by simp
next
  assume "sec_name s \<notin> {''Mozilla'', ''Opera'', ''Dalvik'', ''okhttp''}"
  then show "detectOS p (s # rest) = Some (p\<lparr>undecided := True\<rparr>)"
    by (simp add: detectOS_def idx_0_Cons len_Cons_pos)
qed

theorem detectOS_unknown_engine_witness:
  "Engine (browser (zeroUserAgent\<lparr>browser :=
      \<lparr>Engine = ''Presto'', BrowserName = ''Opera'', BrowserVersion = ''12.16''\<rparr>\<rparr>))
     \<notin> {'''', ''Gecko'', ''AppleWebKit'', ''Trident''} \<and>
   detectOS (zeroUserAgent\<lparr>browser :=
               \<lparr>Engine = ''Presto'', BrowserName = ''Opera'', BrowserVersion = ''12.16''\<rparr>\<rparr>)
     [\<lparr>sec_name = ''Mozilla'', sec_version = ''5.0'',
       sec_comment = [''Windows NT 6.1'', ''WOW64'']\<rparr>] =
     Some (zeroUserAgent\<lparr>platform := ''Windows'', os := ''Windows 7'', browser :=
             \<lparr>Engine = ''Presto'', BrowserName = ''Opera'', BrowserVersion = ''12.16''\<rparr>\<rparr>) \<and>
   map_option undecided
     (detectOS (zeroUserAgent\<lparr>browser :=
                 \<lparr>Engine = ''Presto'', BrowserName = ''Opera'', BrowserVersion = ''12.16''\<rparr>\<rparr>)
        [\<lparr>sec_name = ''Mozilla'', sec_version = ''5.0'',
          sec_comment = [''Windows NT 6.1'', ''WOW64'']\<rparr>]) = Some False \<and>
   ''curl'' \<notin> {''Mozilla'', ''Opera'', ''Dalvik'', ''okhttp''} \<and>
   detectOS zeroUserAgent [\<lparr>sec_name = ''curl'', sec_version = ''7.68.0'', sec_comment = []\<rparr>] =
     Some (zeroUserAgent\<lparr>undecided := True\<rparr>)"
proof -
  have gp: "getPlatform [''Windows NT 6.1'', ''WOW64''] = Some ''Windows''"
    by (simp add: getPlatform_def idx_def len_def HasPrefix_def)
  show ?thesis
    using detectOS_unknown_engine
      [of "\<lparr>sec_name = ''Mozilla'', sec_version = ''5.0'',
            sec_comment = [''Windows NT 6.1'', ''WOW64'']\<rparr>"
          "zeroUserAgent\<lparr>browser :=
             \<lparr>Engine = ''Presto'', BrowserName = ''Opera'', BrowserVersion = ''12.16''\<rparr>\<rparr>"
          "[]"]
      detectOS_unknown_engine
      [of "\<lparr>sec_name = ''curl'', sec_version = ''7.68.0'', sec_comment = []\<rparr>"
          zeroUserAgent "[]"]
      gp normalizeOS_NT_6_1
    by (simp add: zeroUserAgent_def)
qed

section \<open>The OS-info splitter on two strings\<close>

text \<open>
  C7: for the \<open>os\<close> field \<^verbatim>\<open>CPU iPhone OS 10_3_1 like Mac OS X\<close>, \<^verbatim>\<open>OSInfo\<close> removes
  \<^verbatim>\<open>like Mac OS X\<close> and \<^verbatim>\<open>CPU\<close>, trims the spaces, splits on spaces, and replaces the
  underscores of the version by dots: the name is \<^verbatim>\<open>iPhone OS\<close>, the version
  \<^verbatim>\<open>10.3.1\<close>, and the full name is the \<open>os\<close> field as it was.
\<close>

theorem OSInfo_iPhone:
  "Replace ''CPU iPhone OS 10_3_1 like Mac OS X'' ''like Mac OS X'' '''' 1
     = ''CPU iPhone OS 10_3_1 '' \<and>
   Replace ''CPU iPhone OS 10_3_1 '' ''CPU'' '''' 1 = '' iPhone OS 10_3_1 '' \<and>
   Trim '' iPhone OS 10_3_1 '' '' '' = ''iPhone OS 10_3_1'' \<and>
   Split ''iPhone OS 10_3_1'' '' '' = [''iPhone'', ''OS'', ''10_3_1''] \<and>
   osName [''iPhone'', ''OS'', ''10_3_1''] = Some (''iPhone OS'', ''10_3_1'') \<and>
   Replace ''10_3_1'' ''_'' ''.'' (- 1) = ''10.3.1'' \<and>
   OSInfo (p\<lparr>os := ''CPU iPhone OS 10_3_1 like Mac OS X''\<rparr>) =
     Some \<lparr>FullName = ''CPU iPhone OS 10_3_1 like Mac OS X'', Name = ''iPhone OS'',
            Version = ''10.3.1''\<rparr>"
proof -
  have r1: "Replace ''CPU iPhone OS 10_3_1 like Mac OS X'' ''like Mac OS X'' '''' 1
     = ''CPU iPhone OS 10_3_1 ''"
    by (simp add: Replace_def HasPrefix_def)
  have r2: "Replace ''CPU iPhone OS 10_3_1 '' ''CPU'' '''' 1 = '' iPhone OS 10_3_1 ''"
    by (simp add: Replace_def HasPrefix_def)
  have t: "Trim '' iPhone OS 10_3_1 '' '' '' = ''iPhone OS 10_3_1''"
    by (simp add: Trim_def)
  have s: "Split ''iPhone OS 10_3_1'' '' '' = [''iPhone'', ''OS'', ''10_3_1'']"
    by (simp add: Split_def SplitN_def HasPrefix_def)
  have n: "osName [''iPhone'', ''OS'', ''10_3_1''] = Some (''iPhone OS'', ''10_3_1'')"
    by (simp add: osName_def len_def idx_def slice_to_def Contains_def HasPrefix_def)
  have c: "\<not> Contains ''iPhone OS'' ''/''"
    by (simp add: Contains_def HasPrefix_def)
  have r3: "Replace ''10_3_1'' ''_'' ''.'' (- 1) = ''10.3.1''"
    by (simp add: Replace_def HasPrefix_def)
  have "OSInfo (p\<lparr>os := ''CPU iPhone OS 10_3_1 like Mac OS X''\<rparr>) =
     Some \<lparr>FullName = ''CPU iPhone OS 10_3_1 like Mac OS X'', Name = ''iPhone OS'',
            Version = ''10.3.1''\<rparr>"
    by (simp add: OSInfo_def r1 r2 t s n c r3)
  with r1 r2 t s n r3 show ?thesis by blast
qed

text \<open>
  C8: for the \<open>os\<close> field \<^verbatim>\<open>Windows XP x64 Edition\<close>, \<^verbatim>\<open>OSInfo\<close> drops the last two
  of the four tokens and splits the rest as usual: the name is \<^verbatim>\<open>Windows\<close>, the version
  \<^verbatim>\<open>XP\<close>, and the full name is the \<open>os\<close> field as it was.
\<close>

theorem OSInfo_Windows_XP_x64:
  "Split ''Windows XP x64 Edition'' '' '' = [''Windows'', ''XP'', ''x64'', ''Edition''] \<and>
   slice_to [''Windows'', ''XP'', ''x64'', ''Edition'']
     (len [''Windows'', ''XP'', ''x64'', ''Edition''] - 2) = Some [''Windows'', ''XP''] \<and>
   osName [''Windows'', ''XP''] = Some (''Windows'', ''XP'') \<and>
   OSInfo (p\<lparr>os := ''Windows XP x64 Edition''\<rparr>) =
     Some \<lparr>FullName = ''Windows XP x64 Edition'', Name = ''Windows'', Version = ''XP''\<rparr>"
proof -
  have r1: "Replace ''Windows XP x64 Edition'' ''like Mac OS X'' '''' 1
     = ''Windows XP x64 Edition''"
    by (simp add: Replace_def HasPrefix_def)
  have r2: "Replace ''Windows XP x64 Edition'' ''CPU'' '''' 1 = ''Windows XP x64 Edition''"
    by (simp add: Replace_def HasPrefix_def)
  have t: "Trim ''Windows XP x64 Edition'' '' '' = ''Windows XP x64 Edition''"
    by (simp add: Trim_def)
  have s: "Split ''Windows XP x64 Edition'' '' '' = [''Windows'', ''XP'', ''x64'', ''Edition'']"
    by (simp add: Split_def SplitN_def HasPrefix_def)
  have sl: "slice_to [''Windows'', ''XP'', ''x64'', ''Edition'']
     (len [''Windows'', ''XP'', ''x64'', ''Edition''] - 2) = Some [''Windows'', ''XP'']"
    by (simp add: slice_to_def len_def)
  have n: "osName [''Windows'', ''XP''] = Some (''Windows'', ''XP'')"
    by (simp add: osName_def len_def idx_def slice_to_def Contains_def HasPrefix_def)
  have c: "\<not> Contains ''Windows'' ''/''"
    by (simp add: Contains_def HasPrefix_def)
  have r3: "Replace ''XP'' ''_'' ''.'' (- 1) = ''XP''"
    by (simp add: Replace_def HasPrefix_def)
  have "OSInfo (p\<lparr>os := ''Windows XP x64 Edition''\<rparr>) =
     Some \<lparr>FullName = ''Windows XP x64 Edition'', Name = ''Windows'', Version = ''XP''\<rparr>"
    by (simp add: OSInfo_def r1 r2 t s sl n c r3)
  with s sl n show ?thesis by blast
qed

end
